theory Spec2Isabelle
  imports Main
begin

section \<open>Python values used by node\_util.py\<close>

text \<open>
  The script \<^verbatim>\<open>node_util.py\<close> is embedded function by function.  Every function
  keeps its name without the leading underscore.  What \<^verbatim>\<open>print\<close> writes is not
  modelled.  Texts (file contents, response bodies, names) are \<^typ>\<open>string\<close>s: one
  character per code point, code points up to 255.
\<close>

subsection \<open>Strings\<close>

text \<open>\<^verbatim>\<open>str.isspace\<close> on one character, for the code points up to 255.\<close>

definition is_space :: "char \<Rightarrow> bool" where
  "is_space c = (c \<in> set [CHR 0x09, CHR 0x0A, CHR 0x0B, CHR 0x0C, CHR 0x0D,
     CHR 0x1C, CHR 0x1D, CHR 0x1E, CHR 0x1F, CHR 0x20, CHR 0x85, CHR 0xA0])"

text \<open>\<^verbatim>\<open>s.strip()\<close>\<close>

definition str_strip :: "string \<Rightarrow> string" where
  "str_strip t = rev (dropWhile is_space (rev (dropWhile is_space t)))"

text \<open>The characters at which \<^verbatim>\<open>str.splitlines\<close> ends a line (up to code point 255).\<close>

definition is_linebreak :: "char \<Rightarrow> bool" where
  "is_linebreak c = (c \<in> set [CHR 0x0A, CHR 0x0B, CHR 0x0C, CHR 0x0D,
     CHR 0x1C, CHR 0x1D, CHR 0x1E, CHR 0x85])"

text \<open>
  \<^verbatim>\<open>s.splitlines()\<close>: \<open>cur\<close> is the line read so far.  A carriage return followed
  by a line feed is one line end, and a text that ends with a line end has no empty last
  line.
\<close>

fun splitlines_from :: "string \<Rightarrow> string \<Rightarrow> string list" where
  "splitlines_from cur [] = (if cur = [] then [] else [cur])"
| "splitlines_from cur (c # cs) =
     (if is_linebreak c then
        (case cs of
           [] \<Rightarrow> [cur]
         | d # ds \<Rightarrow>
             if c = CHR 0x0D \<and> d = CHR 0x0A then cur # splitlines_from [] ds
             else cur # splitlines_from [] (d # ds))
      else splitlines_from (cur @ [c]) cs)"

definition splitlines :: "string \<Rightarrow> string list" where
  "splitlines t = splitlines_from [] t"

text \<open>
  \<^verbatim>\<open>s.split(sep)\<close> for a separator that is not empty (the script only splits at
  literals): the occurrences of \<open>sep\<close> are found from the left and do not overlap.
\<close>

fun str_split_from :: "string \<Rightarrow> string \<Rightarrow> string \<Rightarrow> string list" where
  "str_split_from sep cur [] = [cur]"
| "str_split_from sep cur (c # cs) =
     (if sep \<noteq> [] \<and> take (length sep) (c # cs) = sep
      then cur # str_split_from sep [] (drop (length sep - 1) cs)
      else str_split_from sep (cur @ [c]) cs)"

definition str_split :: "string \<Rightarrow> string \<Rightarrow> string list" where
  "str_split sep t = str_split_from sep [] t"

text \<open>\<^verbatim>\<open>s.replace(old, new)\<close> for an \<open>old\<close> that is not empty.\<close>

fun str_replace :: "string \<Rightarrow> string \<Rightarrow> string \<Rightarrow> string" where
  "str_replace old new [] = []"
| "str_replace old new (c # cs) =
     (if old \<noteq> [] \<and> take (length old) (c # cs) = old
      then new @ str_replace old new (drop (length old - 1) cs)
      else c # str_replace old new cs)"


text \<open>How an f-string prints a field that holds a string or \<^verbatim>\<open>None\<close>.\<close>

fun fmt :: "string option \<Rightarrow> string" where
  "fmt None = ''None''"
| "fmt (Some t) = t"

text \<open>The truth value of a string or \<^verbatim>\<open>None\<close>: \<^verbatim>\<open>None\<close> and \<^verbatim>\<open>""\<close> are false.\<close>

fun truthy :: "string option \<Rightarrow> bool" where
  "truthy None = False"
| "truthy (Some t) = (t \<noteq> [])"

text \<open>
  The value a function returns to a caller that tests it: the two functions the
  orchestrator tests have no \<^verbatim>\<open>return\<close> statement, so they return \<^verbatim>\<open>None\<close>.
\<close>

datatype pyvalue = PyNone | PyBool bool

fun truth :: "pyvalue \<Rightarrow> bool" where
  "truth PyNone = False"
| "truth (PyBool b) = b"

subsection \<open>Exceptions, exits and results\<close>

datatype exc =
    FileNotFoundError
  | IsADirectoryError
  | NotADirectoryError
  | FileExistsError
  | StatusError nat  \<comment> \<open>\<^verbatim>\<open>IOError("Expected status 200 requesting ..., received <status>")\<close>\<close>
  | MaxRetryError    \<comment> \<open>urllib3 could not reach the host\<close>
  | ReadError        \<comment> \<open>\<^verbatim>\<open>tarfile.ReadError\<close>: the file is not a tar archive\<close>
  | ValueError
  | IndexError

text \<open>
  A call returns a value, leaves the process through \<^verbatim>\<open>exit(n)\<close>, or raises an
  exception that nothing in the script catches.
\<close>

datatype 'a result = Return 'a | Exit nat | Raise exc

section \<open>The file system\<close>

text \<open>
  A path is the list of its components below the root.  The file system maps the paths
  that exist to a directory or to a file with its text (for a downloaded archive, its
  bytes).  Symbolic and hard links are not
  modelled: two different paths are two different files.  A name joined to a path with
  \<^verbatim>\<open>/\<close> is one component (a protocol version such as \<^verbatim>\<open>1_0_0\<close>).
\<close>

type_synonym path = "string list"

datatype node = Dir | File string

type_synonym filesystem = "path \<Rightarrow> node option"

definition CONFIG_PATH :: path where
  "CONFIG_PATH = [''etc'', ''casper'']"

definition BIN_PATH :: path where
  "BIN_PATH = [''var'', ''lib'', ''casper'', ''bin'']"

definition NET_CONFIG_PATH :: path where
  "NET_CONFIG_PATH = CONFIG_PATH @ [''network_configs'']"

definition PLATFORM_PATH :: path where
  "PLATFORM_PATH = CONFIG_PATH @ [''PLATFORM'']"

text \<open>\<^verbatim>\<open>Path.exists()\<close>\<close>

definition path_exists :: "filesystem \<Rightarrow> path \<Rightarrow> bool" where
  "path_exists f p = (f p \<noteq> None)"

text \<open>\<^verbatim>\<open>Path.read_text()\<close>\<close>

definition read_text :: "filesystem \<Rightarrow> path \<Rightarrow> exc + string" where
  "read_text f p =
     (case f p of
        None \<Rightarrow> Inl FileNotFoundError
      | Some Dir \<Rightarrow> Inl IsADirectoryError
      | Some (File t) \<Rightarrow> Inr t)"

text \<open>
  Opening a path for writing and writing the data (\<^verbatim>\<open>open(p, 'wb')\<close>,
  \<^verbatim>\<open>Path.write_text\<close>): the parent must be a directory, the path must not be one.
  The root is a directory.
\<close>

definition parent_node :: "filesystem \<Rightarrow> path \<Rightarrow> node option" where
  "parent_node f p = (if butlast p = [] then Some Dir else f (butlast p))"

definition write_file :: "path \<Rightarrow> string \<Rightarrow> filesystem \<Rightarrow> exc + filesystem" where
  "write_file p t f =
     (if p = [] then Inl IsADirectoryError
      else case parent_node f p of
        None \<Rightarrow> Inl FileNotFoundError
      | Some (File _) \<Rightarrow> Inl NotADirectoryError
      | Some Dir \<Rightarrow>
          (case f p of
             Some Dir \<Rightarrow> Inl IsADirectoryError
           | _ \<Rightarrow> Inr (f(p \<mapsto> File t))))"

text \<open>\<^verbatim>\<open>Path.unlink()\<close>\<close>

definition unlink :: "path \<Rightarrow> filesystem \<Rightarrow> exc + filesystem" where
  "unlink p f =
     (case f p of
        None \<Rightarrow> Inl FileNotFoundError
      | Some Dir \<Rightarrow> Inl IsADirectoryError
      | Some (File _) \<Rightarrow> Inr (f(p := None)))"

section \<open>The object and its surroundings\<close>

text \<open>
  The state holds the fields of the \<^verbatim>\<open>NodeUtil\<close> object that the script assigns
  (\<^verbatim>\<open>_network_name\<close>, \<^verbatim>\<open>_url\<close>, \<^verbatim>\<open>_bin_mode\<close>, \<^verbatim>\<open>_external_ip\<close>), the
  file system, the URLs requested so far (oldest first) and, as a history of the run, the
  pairs of output file and address of every config file \<open>config_from_example\<close> has
  written (newest last).
\<close>

record state =
  network_name :: "string option"
  url :: "string option"
  bin_mode :: "string option"
  external_ip :: "string option"
  fs :: filesystem
  requests :: "string list"
  materialized :: "(path \<times> string) list"

section \<open>Classifying a protocol version\<close>

datatype Status = UNSTAGED | NO_CONFIG | BIN_ONLY | CONFIG_ONLY | STAGED | WRONG_NETWORK

definition NAME_DATA :: string where
  "NAME_DATA = ''name = '' @ [CHR 0x27]"

text \<open>
  The loop of \<open>chainspec_name\<close> over the lines: the first line that starts with
  \<open>NAME_DATA\<close> decides.  An index past the end of a list raises \<^verbatim>\<open>IndexError\<close>.
  When no line starts with \<open>NAME_DATA\<close>, the function falls off its end and returns
  \<^verbatim>\<open>None\<close>.
\<close>

fun chainspec_name_lines :: "string list \<Rightarrow> exc + string option" where
  "chainspec_name_lines [] = Inr None"
| "chainspec_name_lines (line # rest) =
     (if take (length NAME_DATA) line = NAME_DATA then
        (case str_split NAME_DATA line of
           _ # second # _ \<Rightarrow>
             (case str_split [CHR 0x27] second of
                first # _ \<Rightarrow> Inr (Some first)
              | [] \<Rightarrow> Inl IndexError)
         | _ \<Rightarrow> Inl IndexError)
      else chainspec_name_lines rest)"

definition chainspec_name :: "filesystem \<Rightarrow> path \<Rightarrow> exc + string option" where
  "chainspec_name f chainspec_path =
     (case read_text f chainspec_path of
        Inl e \<Rightarrow> Inl e
      | Inr t \<Rightarrow> chainspec_name_lines (splitlines t))"

definition check_staged_version :: "state \<Rightarrow> string \<Rightarrow> Status result" where
  "check_staged_version s version =
     (if \<not> truthy (network_name s) then Exit 1
      else
        let config_version_path = CONFIG_PATH @ [version];
            chainspec_toml_file_path = config_version_path @ [''chainspec.toml''];
            config_toml_file_path = config_version_path @ [''config.toml''];
            bin_version_path = BIN_PATH @ [version] @ [''casper-node'']
        in
          if \<not> path_exists (fs s) config_version_path then
            (if \<not> path_exists (fs s) bin_version_path then Return UNSTAGED
             else Return BIN_ONLY)
          else if \<not> path_exists (fs s) bin_version_path then Return CONFIG_ONLY
          else if \<not> path_exists (fs s) config_toml_file_path then Return NO_CONFIG
          else
            (case chainspec_name (fs s) chainspec_toml_file_path of
               Inl e \<Rightarrow> Raise e
             | Inr name \<Rightarrow>
                 if name \<noteq> network_name s then Return WRONG_NETWORK
                 else Return STAGED))"

section \<open>What the script consults and cannot change\<close>

text \<open>
  A GET request either fails to reach the host (urllib3 raises) or has a status and a
  body.  The answer to a request may depend on the requests made before it.
\<close>

datatype response = ConnectionFailed | Response nat string

text \<open>
  The members of a tar archive, as far as they are modelled: regular files and
  directories, each named by a relative or an absolute path whose components are plain
  names (no \<^verbatim>\<open>.\<close> and no \<^verbatim>\<open>..\<close>).
\<close>

datatype member_path = Rel "string list" | Abs "string list"

datatype tar_member = RegFile member_path string | Directory member_path

text \<open>
  \<open>getuser\<close> is \<^verbatim>\<open>getpass.getuser()\<close>; \<open>http_get\<close> answers a GET for a URL,
  given the URLs requested before; \<open>tar_members\<close> is what \<^verbatim>\<open>tarfile\<close> reads from
  the bytes of a file (\<open>None\<close> when they are not a tar archive); \<open>ip_address_ok\<close>
  says whether \<^verbatim>\<open>ipaddress.ip_address\<close> accepts a text.
\<close>

record env =
  getuser :: string
  http_get :: "string list \<Rightarrow> string \<Rightarrow> response"
  tar_members :: "string \<Rightarrow> tar_member list option"
  ip_address_ok :: "string \<Rightarrow> bool"

section \<open>Running a call\<close>

type_synonym 'a run = "state \<Rightarrow> 'a result \<times> state"

definition return :: "'a \<Rightarrow> 'a run" where
  "return x s = (Return x, s)"

definition and_then :: "'a run \<Rightarrow> ('a \<Rightarrow> 'b run) \<Rightarrow> 'b run" where
  "and_then m k s =
     (case m s of
        (Return x, s') \<Rightarrow> k x s'
      | (Exit n, s') \<Rightarrow> (Exit n, s')
      | (Raise x, s') \<Rightarrow> (Raise x, s'))"

text \<open>A file system operation that either fails and changes nothing or succeeds.\<close>

definition on_fs :: "(filesystem \<Rightarrow> exc + filesystem) \<Rightarrow> unit run" where
  "on_fs op s =
     (case op (fs s) of
        Inl x \<Rightarrow> (Raise x, s)
      | Inr f \<Rightarrow> (Return (), s\<lparr>fs := f\<rparr>))"

definition verify_casper_user :: "env \<Rightarrow> unit run" where
  "verify_casper_user e s =
     (if getuser e \<noteq> ''casper'' then (Exit 1, s) else (Return (), s))"

section \<open>Downloading and extracting\<close>

definition download_file :: "env \<Rightarrow> string \<Rightarrow> path \<Rightarrow> unit run" where
  "download_file e u target_path s =
     (let r = http_get e (requests s) u;
          s1 = s\<lparr>requests := requests s @ [u]\<rparr>
      in case r of
           ConnectionFailed \<Rightarrow> (Raise MaxRetryError, s1)
         | Response status data \<Rightarrow>
             if status \<noteq> 200 then (Raise (StatusError status), s1)
             else on_fs (write_file target_path data) s1)"

text \<open>
  \<^verbatim>\<open>os.makedirs\<close>, as \<^verbatim>\<open>tarfile\<close> calls it for the directory of a member that does
  not exist yet: the missing directories are made from the root down.
\<close>

fun makedirs_from :: "path \<Rightarrow> string list \<Rightarrow> filesystem \<Rightarrow> exc option \<times> filesystem" where
  "makedirs_from cur [] f = (None, f)"
| "makedirs_from cur (c # cs) f =
     (case f (cur @ [c]) of
        None \<Rightarrow> makedirs_from (cur @ [c]) cs (f(cur @ [c] \<mapsto> Dir))
      | Some Dir \<Rightarrow> makedirs_from (cur @ [c]) cs f
      | Some (File _) \<Rightarrow> (Some NotADirectoryError, f))"

definition makedirs :: "path \<Rightarrow> filesystem \<Rightarrow> exc option \<times> filesystem" where
  "makedirs p f = makedirs_from [] p f"

fun member_name :: "tar_member \<Rightarrow> member_path" where
  "member_name (RegFile n _) = n"
| "member_name (Directory n) = n"

text \<open>\<^verbatim>\<open>os.path.join(path, tarinfo.name)\<close>: an absolute name replaces the path.\<close>

fun join_member :: "path \<Rightarrow> member_path \<Rightarrow> path" where
  "join_member target (Rel ps) = target @ ps"
| "join_member target (Abs ps) = ps"

text \<open>
  What \<^verbatim>\<open>tarfile\<close> does with a member once the directories above its path exist: a
  regular file is written over what is there, a directory is made, and a directory that
  exists already is left as it is.
\<close>

definition extract_to :: "tar_member \<Rightarrow> path \<Rightarrow> filesystem \<Rightarrow> exc option \<times> filesystem" where
  "extract_to m targetpath f =
     (case m of
        Directory _ \<Rightarrow>
          (if path_exists f targetpath then (None, f)
           else case parent_node f targetpath of
                  Some Dir \<Rightarrow> (None, f(targetpath \<mapsto> Dir))
                | Some (File _) \<Rightarrow> (Some NotADirectoryError, f)
                | None \<Rightarrow> (Some FileNotFoundError, f))
      | RegFile _ data \<Rightarrow>
          (case write_file targetpath data f of
             Inl x \<Rightarrow> (Some x, f)
           | Inr f' \<Rightarrow> (None, f')))"

text \<open>
  \<^verbatim>\<open>TarFile.extract(member, path)\<close> with no extraction filter, which is what the call
  of the script selects in every Python release whose default filter trusts the archive
  (all releases before 3.14): the member goes to the joined path, and missing directories
  above it are made first.  The result is the exception raised, if any, and the file
  system as the call leaves it.
\<close>

definition tar_extract :: "tar_member \<Rightarrow> path \<Rightarrow> filesystem \<Rightarrow> exc option \<times> filesystem" where
  "tar_extract m target f =
     (let targetpath = join_member target (member_name m);
          upperdirs = butlast targetpath
      in case (if upperdirs \<noteq> [] \<and> \<not> path_exists f upperdirs
               then makedirs upperdirs f else (None, f)) of
           (Some x, f1) \<Rightarrow> (Some x, f1)
         | (None, f1) \<Rightarrow> extract_to m targetpath f1)"

text \<open>The loop of \<open>extract_tar_gz\<close> over the members of the archive.\<close>

fun extract_members :: "tar_member list \<Rightarrow> path \<Rightarrow> unit run" where
  "extract_members [] target_path s = (Return (), s)"
| "extract_members (m # ms) target_path s =
     (case tar_extract m target_path (fs s) of
        (Some x, f) \<Rightarrow> (Raise x, s\<lparr>fs := f\<rparr>)
      | (None, f) \<Rightarrow> extract_members ms target_path (s\<lparr>fs := f\<rparr>))"

definition extract_tar_gz :: "env \<Rightarrow> path \<Rightarrow> path \<Rightarrow> unit run" where
  "extract_tar_gz e source_file_path target_path s =
     (case read_text (fs s) source_file_path of
        Inl x \<Rightarrow> (Raise x, s)
      | Inr bytes \<Rightarrow>
          (case tar_members e bytes of
             None \<Rightarrow> (Raise ReadError, s)
           | Some ms \<Rightarrow> extract_members ms target_path s))"

definition network_url :: "state \<Rightarrow> string" where
  "network_url s = ''http://'' @ fmt (url s) @ ''/'' @ fmt (network_name s)"

definition bin_file_name :: "state \<Rightarrow> string \<Rightarrow> string" where
  "bin_file_name s platform =
     ''bin'' @ (if platform \<noteq> ''deb'' then ''_'' @ platform else [])
       @ (if bin_mode s \<noteq> Some ''mainnet'' then ''_new'' else [])
       @ ''.tar.gz''"

definition pull_protocol_version :: "env \<Rightarrow> string \<Rightarrow> string \<Rightarrow> pyvalue run" where
  "pull_protocol_version e protocol_version platform =
     and_then (verify_casper_user e) (\<lambda>_ s.
       if \<not> path_exists (fs s) BIN_PATH then (Exit 1, s)
       else if \<not> path_exists (fs s) CONFIG_PATH then (Exit 1, s)
       else
         let bin_file = bin_file_name s platform;
             config_file = ''config.tar.gz'';
             etc_full_path = CONFIG_PATH @ [protocol_version];
             bin_full_path = BIN_PATH @ [protocol_version];
             base_url = network_url s @ ''/'' @ protocol_version;
             config_url = base_url @ ''/'' @ config_file;
             bin_url = base_url @ ''/'' @ bin_file;
             config_archive_path = CONFIG_PATH @ [config_file];
             bin_archive_path = BIN_PATH @ [bin_file]
         in
           if path_exists (fs s) etc_full_path then (Exit 1, s)
           else if path_exists (fs s) bin_full_path then (Exit 1, s)
           else
             and_then (download_file e config_url config_archive_path) (\<lambda>_.
             and_then (extract_tar_gz e config_archive_path etc_full_path) (\<lambda>_.
             and_then (on_fs (unlink config_archive_path)) (\<lambda>_.
             and_then (download_file e bin_url bin_archive_path) (\<lambda>_.
             and_then (extract_tar_gz e bin_archive_path bin_full_path) (\<lambda>_.
             and_then (on_fs (unlink bin_archive_path)) (\<lambda>_.
             return PyNone)))))) s)"

section \<open>The external address\<close>

definition services :: "(string \<times> string) list" where
  "services =
     [(''https://checkip.amazonaws.com'', ''amazonaws.com''),
      (''https://ifconfig.me'', ''ifconfig.me''),
      (''https://ident.me'', ''ident.me'')]"

text \<open>
  \<^verbatim>\<open>Counter(ips)\<close>: a dictionary from each answer to the number of times it occurs,
  its keys in the order in which they were first met.
\<close>

fun counter_add :: "string \<Rightarrow> (string \<times> nat) list \<Rightarrow> (string \<times> nat) list" where
  "counter_add x [] = [(x, 1)]"
| "counter_add x ((y, n) # rest) =
     (if x = y then (y, Suc n) # rest else (y, n) # counter_add x rest)"

definition Counter :: "string list \<Rightarrow> (string \<times> nat) list" where
  "Counter xs = foldl (\<lambda>c x. counter_add x c) [] xs"

text \<open>
  \<^verbatim>\<open>most_common(1)\<close> is \<^verbatim>\<open>max(items, key=count)\<close>, and \<^verbatim>\<open>max\<close> keeps the first
  of several largest items.
\<close>

fun max_first :: "string \<times> nat \<Rightarrow> (string \<times> nat) list \<Rightarrow> string \<times> nat" where
  "max_first best [] = best"
| "max_first best (item # rest) =
     max_first (if snd best < snd item then item else best) rest"

definition most_common_1 :: "(string \<times> nat) list \<Rightarrow> (string \<times> nat) list" where
  "most_common_1 c = (case c of [] \<Rightarrow> [] | item # rest \<Rightarrow> [max_first item rest])"

definition is_valid_ip :: "env \<Rightarrow> string option \<Rightarrow> bool" where
  "is_valid_ip e ip = (case ip of None \<Rightarrow> False | Some a \<Rightarrow> ip_address_ok e a)"

text \<open>The loop of \<open>get_external_ip\<close> over the services; \<open>ips\<close> are the answers kept.\<close>

fun query_services :: "env \<Rightarrow> (string \<times> string) list \<Rightarrow> string list \<Rightarrow> string list run" where
  "query_services e [] ips s = (Return ips, s)"
| "query_services e ((u, service) # rest) ips s =
     (let r = http_get e (requests s) u;
          s1 = s\<lparr>requests := requests s @ [u]\<rparr>
      in case r of
           ConnectionFailed \<Rightarrow> (Raise MaxRetryError, s1)
         | Response status data \<Rightarrow>
             (let ip = (if status \<noteq> 200 then [] else str_strip data)
              in query_services e rest (if ip \<noteq> [] then ips @ [ip] else ips) s1))"

definition get_external_ip :: "env \<Rightarrow> string option run" where
  "get_external_ip e s =
     (if truthy (external_ip s) then (Return (external_ip s), s)
      else
        and_then (query_services e services []) (\<lambda>ips s1.
          if ips \<noteq> [] then
            (case most_common_1 (Counter ips) of
               [] \<Rightarrow> (Raise IndexError, s1)
             | (ip_addr, _) # _ \<Rightarrow>
                 if is_valid_ip e (Some ip_addr)
                 then (Return (Some ip_addr), s1\<lparr>external_ip := Some ip_addr\<rparr>)
                 else (Return None, s1))
          else (Return None, s1)) s)"

section \<open>Making config.toml from the example\<close>

definition PLACEHOLDER :: string where
  "PLACEHOLDER = ''<IP ADDRESS>''"

definition config_from_example :: "env \<Rightarrow> string \<Rightarrow> string option \<Rightarrow> pyvalue run" where
  "config_from_example e protocol_version ip =
     and_then (verify_casper_user e) (\<lambda>_ s.
       let config_path = CONFIG_PATH @ [protocol_version];
           config_toml_path = config_path @ [''config.toml''];
           config_example = config_path @ [''config-example.toml''];
           config_toml_new_path = config_path @ [''config.toml.new'']
       in
         if \<not> path_exists (fs s) config_example then (Exit 1, s)
         else
           and_then (if ip = None then get_external_ip e else return ip) (\<lambda>ip s.
             if \<not> is_valid_ip e ip then (Exit 1, s)
             else
               let outfile = (if path_exists (fs s) config_toml_path
                              then config_toml_new_path else config_toml_path)
               in case read_text (fs s) config_example of
                    Inl x \<Rightarrow> (Raise x, s)
                  | Inr template \<Rightarrow>
                      and_then
                        (on_fs (write_file outfile (str_replace PLACEHOLDER (fmt ip) template)))
                        (\<lambda>_ s. (Return PyNone, s\<lparr>materialized := materialized s @ [(outfile, fmt ip)]\<rparr>))
                        s) s)"

section \<open>The network config and the catalog\<close>

text \<open>The loop of \<open>load_config_values\<close> over the lines; \<open>config\<close> is the dictionary.\<close>

fun parse_config_lines :: "string list \<Rightarrow> (string \<rightharpoonup> string) \<Rightarrow> exc + (string \<rightharpoonup> string)" where
  "parse_config_lines [] config = Inr config"
| "parse_config_lines (line # rest) config =
     (if str_strip line \<noteq> [] then
        (case str_split ''='' (str_strip line) of
           [key, val] \<Rightarrow> parse_config_lines rest (config(key \<mapsto> val))
         | _ \<Rightarrow> Inl ValueError)
      else parse_config_lines rest config)"

definition load_config_values :: "string \<Rightarrow> unit run" where
  "load_config_values config s =
     (case read_text (fs s) (NET_CONFIG_PATH @ [config]) of
        Inl x \<Rightarrow> (Raise x, s)
      | Inr t \<Rightarrow>
          (case parse_config_lines (splitlines t) Map.empty of
             Inl x \<Rightarrow> (Raise x, s)
           | Inr c \<Rightarrow>
               if c ''SOURCE_URL'' = None then (Exit 1, s)
               else if c ''NETWORK_NAME'' = None then (Exit 1, s)
               else (Return (),
                     s\<lparr>url := c ''SOURCE_URL'',
                       network_name := c ''NETWORK_NAME'',
                       bin_mode := Some (case c ''BIN_MODE'' of None \<Rightarrow> ''mainnet'' | Some m \<Rightarrow> m)\<rparr>)))"

definition get_platform :: "string run" where
  "get_platform s =
     (if path_exists (fs s) PLATFORM_PATH then
        (case read_text (fs s) PLATFORM_PATH of
           Inl x \<Rightarrow> (Raise x, s)
         | Inr t \<Rightarrow> (Return (str_strip t), s))
      else (Return ''deb'', s))"

definition get_protocols :: "env \<Rightarrow> string list run" where
  "get_protocols e s =
     (let full_url = network_url s @ ''/protocol_versions'';
          r = http_get e (requests s) full_url;
          s1 = s\<lparr>requests := requests s @ [full_url]\<rparr>
      in case r of
           ConnectionFailed \<Rightarrow> (Raise MaxRetryError, s1)
         | Response status data \<Rightarrow>
             if status \<noteq> 200 then (Raise (StatusError status), s1)
             else (Return (map str_strip (splitlines data)), s1))"

section \<open>The orchestrator\<close>

text \<open>
  One pass of the loop of \<open>stage_protocols\<close> for the version \<open>pv\<close>: the result is
  the value of \<^verbatim>\<open>exit_code\<close> after the pass.  \<open>ip\<close> is \<^verbatim>\<open>str(args.ip)\<close>, or
  \<^verbatim>\<open>None\<close> when no \<^verbatim>\<open>--ip\<close> was given.
\<close>

definition stage_version :: "env \<Rightarrow> string option \<Rightarrow> string \<Rightarrow> string \<Rightarrow> nat \<Rightarrow> nat run" where
  "stage_version e ip platform pv exit_code s =
     (case check_staged_version s pv of
        Exit n \<Rightarrow> (Exit n, s)
      | Raise x \<Rightarrow> (Raise x, s)
      | Return status \<Rightarrow>
          if status = STAGED then (Return exit_code, s)
          else if status \<in> {BIN_ONLY, CONFIG_ONLY} then (Return 1, s)
          else
            and_then
              (if status = UNSTAGED then
                 and_then (pull_protocol_version e pv platform) (\<lambda>r.
                   return (if \<not> truth r then 1 else exit_code))
               else return exit_code)
              (\<lambda>exit_code.
                 if status \<in> {UNSTAGED, NO_CONFIG} then
                   and_then (config_from_example e pv ip) (\<lambda>r.
                     return (if \<not> truth r then 1 else exit_code))
                 else return exit_code) s)"

fun stage_loop :: "env \<Rightarrow> string option \<Rightarrow> string \<Rightarrow> string list \<Rightarrow> nat \<Rightarrow> nat run" where
  "stage_loop e ip platform [] exit_code s = (Return exit_code, s)"
| "stage_loop e ip platform (pv # pvs) exit_code s =
     (case stage_version e ip platform pv exit_code s of
        (Return exit_code', s') \<Rightarrow> stage_loop e ip platform pvs exit_code' s'
      | (Exit n, s') \<Rightarrow> (Exit n, s')
      | (Raise x, s') \<Rightarrow> (Raise x, s'))"

text \<open>
  \<open>stage_protocols\<close> after its arguments are parsed: \<open>config\<close> is
  \<^verbatim>\<open>args.config\<close> and \<open>ip\<close> the address of \<^verbatim>\<open>--ip\<close>, if given.  The call ends with
  \<^verbatim>\<open>exit(exit_code)\<close>.
\<close>

definition stage_protocols :: "env \<Rightarrow> string \<Rightarrow> string option \<Rightarrow> unit run" where
  "stage_protocols e config ip =
     and_then (load_config_values config) (\<lambda>_.
     and_then (verify_casper_user e) (\<lambda>_.
     and_then get_platform (\<lambda>platform.
     and_then (get_protocols e) (\<lambda>pvs.
     and_then (stage_loop e ip platform pvs 0) (\<lambda>exit_code s.
       (Exit exit_code, s))))))"

section \<open>The precedence of the specification\<close>

text \<open>
  The specification words the classification as a precedence over four observations:
  whether the config directory, the binary and \<^verbatim>\<open>config.toml\<close> exist, and the name
  embedded in the chainspec: the value on the first line that starts with
  \<^verbatim>\<open>name = '\<close>.
\<close>

text \<open>The text before the first occurrence of \<open>sep\<close> (all of it when there is none).\<close>

fun before :: "string \<Rightarrow> string \<Rightarrow> string" where
  "before sep [] = []"
| "before sep (c # cs) =
     (if sep \<noteq> [] \<and> take (length sep) (c # cs) = sep then [] else c # before sep cs)"

definition has_name_prefix :: "string \<Rightarrow> bool" where
  "has_name_prefix line = (take (length NAME_DATA) line = NAME_DATA)"

text \<open>
  The value of a line that starts with \<^verbatim>\<open>name = '\<close>: what follows the prefix, up to
  the next quote (or the next \<^verbatim>\<open>name = '\<close>, or the end of the line).
\<close>

definition name_value :: "string \<Rightarrow> string" where
  "name_value line = before [CHR 0x27] (before NAME_DATA (drop (length NAME_DATA) line))"

definition embedded_name :: "string \<Rightarrow> string option" where
  "embedded_name t = map_option name_value (find has_name_prefix (splitlines t))"

definition classify_by_precedence ::
  "bool \<Rightarrow> bool \<Rightarrow> bool \<Rightarrow> string option \<Rightarrow> string option \<Rightarrow> Status" where
  "classify_by_precedence config_dir binary config_toml embedded network =
     (if \<not> config_dir then (if binary then BIN_ONLY else UNSTAGED)
      else if \<not> binary then CONFIG_ONLY
      else if \<not> config_toml then NO_CONFIG
      else if embedded \<noteq> network then WRONG_NETWORK
      else STAGED)"

section \<open>Notions of the claims\<close>

text \<open>
  A file system is a tree: the root is a directory, and what is above a path that exists
  is a directory.
\<close>

definition wf_fs :: "filesystem \<Rightarrow> bool" where
  "wf_fs f = (f [] = Some Dir \<and> (\<forall>p. f p \<noteq> None \<longrightarrow> f (butlast p) = Some Dir))"



text \<open>
  The answers the specification speaks of.  \<open>kept\<close> is what the loop keeps of a
  response that arrived: the stripped body when the status is 200, and nothing otherwise.
  \<open>first_seen\<close> lists the different answers in the order in which they were first
  given.  \<open>most_frequent\<close> is the answer given most often, and of several such the
  one given first; there is none when there is no answer.
\<close>

definition first_seen :: "string list \<Rightarrow> string list" where
  "first_seen xs = rev (remdups (rev xs))"

definition most_frequent :: "string list \<Rightarrow> string option" where
  "most_frequent xs = find (\<lambda>x. \<forall>y\<in>set xs. count_list xs y \<le> count_list xs x) xs"

fun kept :: "response \<Rightarrow> string" where
  "kept ConnectionFailed = []"
| "kept (Response status data) = (if status \<noteq> 200 then [] else str_strip data)"




section \<open>Example installations and servers\<close>

text \<open>The directories every example starts from.\<close>

definition base_dirs :: "(path \<times> node) list" where
  "base_dirs =
     [([], Dir), ([''etc''], Dir), ([''etc'', ''casper''], Dir),
      ([''var''], Dir), ([''var'', ''lib''], Dir), ([''var'', ''lib'', ''casper''], Dir),
      ([''var'', ''lib'', ''casper'', ''bin''], Dir)]"

definition loaded :: "filesystem \<Rightarrow> state" where
  "loaded f =
     \<lparr>network_name = Some ''casper'', url = Some ''example.org'', bin_mode = Some ''mainnet'',
      external_ip = None, fs = f, requests = [], materialized = []\<rparr>"

text \<open>A chainspec of the network \<^verbatim>\<open>casper\<close>: the line \<^verbatim>\<open>name = 'casper'\<close>.\<close>

definition casper_chainspec :: string where
  "casper_chainspec =
     ''[network]'' @ [CHR 0x0A] @ ''name = '' @ [CHR 0x27] @ ''casper'' @ [CHR 0x27, CHR 0x0A]"

text \<open>Version 1\_0\_0 fully staged.\<close>

definition staged_files :: "(path \<times> node) list" where
  "staged_files =
     [([''etc'', ''casper'', ''1_0_0''], Dir),
      ([''etc'', ''casper'', ''1_0_0'', ''chainspec.toml''], File casper_chainspec),
      ([''etc'', ''casper'', ''1_0_0'', ''config-example.toml''],
         File ''public_address = <IP ADDRESS>:0''),
      ([''etc'', ''casper'', ''1_0_0'', ''config.toml''], File ''public_address = 9.9.9.9:0''),
      ([''var'', ''lib'', ''casper'', ''bin'', ''1_0_0''], Dir),
      ([''var'', ''lib'', ''casper'', ''bin'', ''1_0_0'', ''casper-node''], File ''ELF'')]
     @ base_dirs"

definition staged_state :: state where
  "staged_state = loaded (map_of staged_files)"

text \<open>
  Version 1\_0\_0 with config directory, binary and \<^verbatim>\<open>config.toml\<close>, and a
  directory where \<^verbatim>\<open>chainspec.toml\<close> should be.
\<close>

definition chainspec_dir_state :: state where
  "chainspec_dir_state = loaded (map_of
     ([([''etc'', ''casper'', ''1_0_0''], Dir),
       ([''etc'', ''casper'', ''1_0_0'', ''chainspec.toml''], Dir),
       ([''etc'', ''casper'', ''1_0_0'', ''config.toml''], File ''x = 1''),
       ([''var'', ''lib'', ''casper'', ''bin'', ''1_0_0''], Dir),
       ([''var'', ''lib'', ''casper'', ''bin'', ''1_0_0'', ''casper-node''], File ''ELF'')]
      @ base_dirs))"

text \<open>
  Version 1\_4\_5 with config directory, binary and \<^verbatim>\<open>config.toml\<close>, and no
  \<^verbatim>\<open>chainspec.toml\<close>.
\<close>

definition no_chainspec_state :: state where
  "no_chainspec_state = loaded (map_of
     ([([''etc'', ''casper'', ''1_4_5''], Dir),
       ([''etc'', ''casper'', ''1_4_5'', ''config.toml''], File ''x = 1''),
       ([''var'', ''lib'', ''casper'', ''bin'', ''1_4_5''], Dir),
       ([''var'', ''lib'', ''casper'', ''bin'', ''1_4_5'', ''casper-node''], File ''ELF'')]
      @ base_dirs))"

text \<open>
  A fresh installation: the network config \<^verbatim>\<open>casper.conf\<close> and no protocol version.
\<close>

definition net_config_text :: string where
  "net_config_text =
     ''SOURCE_URL=example.org'' @ [CHR 0x0A] @ ''NETWORK_NAME=casper'' @ [CHR 0x0A]"

definition fresh_state :: state where
  "fresh_state =
     \<lparr>network_name = None, url = None, bin_mode = None, external_ip = None,
      fs = map_of
        ([([''etc'', ''casper'', ''network_configs''], Dir),
          ([''etc'', ''casper'', ''network_configs'', ''casper.conf''], File net_config_text)]
         @ base_dirs),
      requests = [], materialized = []\<rparr>"

text \<open>
  An installation with the network config \<^verbatim>\<open>casper.conf\<close> of the network
  \<^verbatim>\<open>casper\<close> and version 1\_0\_0 complete, but with the chainspec of the network
  \<^verbatim>\<open>casper-test\<close>.
\<close>

definition wrong_network_state :: state where
  "wrong_network_state =
     \<lparr>network_name = None, url = None, bin_mode = None, external_ip = None,
      fs = map_of
        ([([''etc'', ''casper'', ''network_configs''], Dir),
          ([''etc'', ''casper'', ''network_configs'', ''casper.conf''], File net_config_text),
          ([''etc'', ''casper'', ''1_0_0''], Dir),
          ([''etc'', ''casper'', ''1_0_0'', ''chainspec.toml''],
             File (''name = '' @ [CHR 0x27] @ ''casper-test'' @ [CHR 0x27, CHR 0x0A])),
          ([''etc'', ''casper'', ''1_0_0'', ''config.toml''], File ''public_address = 9.9.9.9:0''),
          ([''var'', ''lib'', ''casper'', ''bin'', ''1_0_0''], Dir),
          ([''var'', ''lib'', ''casper'', ''bin'', ''1_0_0'', ''casper-node''], File ''ELF'')]
         @ base_dirs),
      requests = [], materialized = []\<rparr>"

text \<open>
  The archives of the examples: the bytes \<^verbatim>\<open>CONFIG\<close> are a tar archive of
  \<^verbatim>\<open>chainspec.toml\<close> and \<^verbatim>\<open>config-example.toml\<close>, the bytes \<^verbatim>\<open>BIN\<close> one of
  \<^verbatim>\<open>casper-node\<close>, the bytes \<^verbatim>\<open>EMPTY\<close> one with no member, and the bytes
  \<^verbatim>\<open>EVIL\<close> one whose only member has an absolute name.
\<close>

definition example_archives :: "string \<Rightarrow> tar_member list option" where
  "example_archives b =
     (if b = ''CONFIG'' then
        Some [RegFile (Rel [''chainspec.toml'']) casper_chainspec,
              RegFile (Rel [''config-example.toml'']) ''public_address = <IP ADDRESS>:0'']
      else if b = ''BIN'' then Some [RegFile (Rel [''casper-node'']) ''ELF'']
      else if b = ''EMPTY'' then Some []
      else if b = ''EVIL'' then Some [RegFile (Abs [''etc'', ''cron.d'', ''evil'']) ''* * * * * root sh'']
      else None)"

text \<open>
  A server that lists the version 1\_0\_0 and serves both of its archives; the only valid
  address is 1.2.3.4.
\<close>

definition good_server :: env where
  "good_server =
     \<lparr>getuser = ''casper'',
      http_get = (\<lambda>asked u.
        if u = ''http://example.org/casper/protocol_versions'' then Response 200 (''1_0_0'' @ [CHR 0x0A])
        else if u = ''http://example.org/casper/1_0_0/config.tar.gz'' then Response 200 ''CONFIG''
        else if u = ''http://example.org/casper/1_0_0/bin.tar.gz'' then Response 200 ''BIN''
        else Response 404 []),
      tar_members = example_archives,
      ip_address_ok = (\<lambda>a. a = ''1.2.3.4'')\<rparr>"

text \<open>
  A server that lists the versions 1\_0\_0 and 1\_1\_0, answers 404 for the archives of
  1\_0\_0 and serves those of 1\_1\_0.
\<close>

definition half_server :: env where
  "half_server =
     \<lparr>getuser = ''casper'',
      http_get = (\<lambda>asked u.
        if u = ''http://example.org/casper/protocol_versions''
          then Response 200 (''1_0_0'' @ [CHR 0x0A] @ ''1_1_0'' @ [CHR 0x0A])
        else if u = ''http://example.org/casper/1_1_0/config.tar.gz'' then Response 200 ''CONFIG''
        else if u = ''http://example.org/casper/1_1_0/bin.tar.gz'' then Response 200 ''BIN''
        else Response 404 []),
      tar_members = example_archives,
      ip_address_ok = (\<lambda>a. a = ''1.2.3.4'')\<rparr>"

text \<open>
  The network config loaded, no config directory for 1\_0\_0, and a directory
  \<^verbatim>\<open>/var/lib/casper/bin/1_0_0\<close> with no \<^verbatim>\<open>casper-node\<close> in it.
\<close>

definition empty_bin_dir_state :: state where
  "empty_bin_dir_state = loaded (map_of
     ([([''var'', ''lib'', ''casper'', ''bin'', ''1_0_0''], Dir)] @ base_dirs))"




text \<open>
  Three echo services that answer \<open>a\<close> (with a line end), \<open>b\<close> and \<open>c\<close>;
  the valid addresses are 1.1.1.1, 2.2.2.2 and 3.3.3.3.
\<close>

definition echo_services :: "string \<Rightarrow> string \<Rightarrow> string \<Rightarrow> env" where
  "echo_services a b c =
     \<lparr>getuser = ''casper'',
      http_get = (\<lambda>asked u.
        if u = ''https://checkip.amazonaws.com'' then Response 200 (a @ [CHR 0x0A])
        else if u = ''https://ifconfig.me'' then Response 200 b
        else if u = ''https://ident.me'' then Response 200 c
        else Response 404 []),
      tar_members = (\<lambda>bytes. None),
      ip_address_ok = (\<lambda>t. t \<in> set [''1.1.1.1'', ''2.2.2.2'', ''3.3.3.3''])\<rparr>"


section \<open>Splitting at a separator\<close>

lemma str_split_from_before:
  "\<exists>rest. str_split_from sep cur t = (cur @ before sep t) # rest"
  by (induction sep cur t rule: str_split_from.induct) auto

lemma str_split_from_prefix:
  assumes "sep \<noteq> []"
  shows "str_split_from sep cur (sep @ r) = cur # str_split_from sep [] r"
proof (cases sep)
  case Nil
  with assms show ?thesis by simp
next
  case (Cons c cs)
  then show ?thesis by simp
qed

lemma NAME_DATA_nonempty: "NAME_DATA \<noteq> []"
  by (simp add: NAME_DATA_def)

section \<open>The chainspec name\<close>

lemma chainspec_name_line:
  assumes "has_name_prefix line"
  shows "chainspec_name_lines (line # rest) = Inr (Some (name_value line))"
proof -
  let ?r = "drop (length NAME_DATA) line"
  have line: "line = NAME_DATA @ ?r"
    using assms unfolding has_name_prefix_def by (metis append_take_drop_id)
  obtain more where more: "str_split_from NAME_DATA [] ?r = before NAME_DATA ?r # more"
    using str_split_from_before [of NAME_DATA "[]" ?r] by auto
  have "str_split NAME_DATA line = [] # str_split_from NAME_DATA [] ?r"
    unfolding str_split_def
    using str_split_from_prefix [OF NAME_DATA_nonempty, of "[]" ?r] line by simp
  then have split: "str_split NAME_DATA line = [] # before NAME_DATA ?r # more"
    using more by simp
  obtain more' where more':
    "str_split [CHR 0x27] (before NAME_DATA ?r) = before [CHR 0x27] (before NAME_DATA ?r) # more'"
    unfolding str_split_def
    using str_split_from_before [of "[CHR 0x27]" "[]" "before NAME_DATA ?r"] by auto
  show ?thesis
    using assms split more' unfolding has_name_prefix_def name_value_def by simp
qed

lemma chainspec_name_lines_find:
  "chainspec_name_lines ls = Inr (map_option name_value (find has_name_prefix ls))"
proof (induction ls)
  case Nil
  show ?case by simp
next
  case (Cons line rest)
  show ?case
  proof (cases "has_name_prefix line")
    case True
    then show ?thesis using chainspec_name_line [OF True, of rest] by simp
  next
    case False
    then show ?thesis using Cons.IH by (simp add: has_name_prefix_def)
  qed
qed

lemma chainspec_name_file:
  "f p = Some (File t) \<Longrightarrow> chainspec_name f p = Inr (embedded_name t)"
  by (simp add: chainspec_name_def read_text_def embedded_name_def chainspec_name_lines_find)

text \<open>
  On a line \<^verbatim>\<open>name = 'v'...\<close> the value is \<open>v\<close>, when \<open>v\<close> has no quote and
  does not end with \<^verbatim>\<open>name = \<close> (the split at \<^verbatim>\<open>name = '\<close> would cut such an
  ending off).
\<close>

lemma before_skip:
  assumes "\<And>v1 v2. v = v1 @ v2 \<Longrightarrow> v2 \<noteq> [] \<Longrightarrow> take (length sep) (v2 @ r) \<noteq> sep"
  shows "before sep (v @ r) = v @ before sep r"
  using assms
proof (induction v)
  case Nil
  show ?case by simp
next
  case (Cons c v)
  have here: "take (length sep) ((c # v) @ r) \<noteq> sep"
    using Cons.prems [of "[]" "c # v"] by simp
  have "before sep (v @ r) = v @ before sep r"
  proof (rule Cons.IH)
    fix v1 v2
    assume "v = v1 @ v2" "v2 \<noteq> []"
    then show "take (length sep) (v2 @ r) \<noteq> sep"
      using Cons.prems [of "c # v1" v2] by simp
  qed
  with here show ?case by simp
qed

lemma before_char:
  "q \<notin> set v \<Longrightarrow> before [q] (v @ q # rest) = v"
  by (induction v) auto

lemma name_prefix_in_value:
  assumes "CHR 0x27 \<notin> set v2" and "take (length NAME_DATA) (v2 @ CHR 0x27 # rest) = NAME_DATA"
  shows "v2 = ''name = ''"
proof -
  let ?q = "CHR 0x27 :: char"
  let ?n = "length NAME_DATA"
  have name: "NAME_DATA = ''name = '' @ [?q]" by (simp add: NAME_DATA_def)
  show ?thesis
  proof (cases "?n \<le> length v2")
    case True
    then have "take ?n v2 = NAME_DATA" using assms(2) by simp
    then have "?q \<in> set (take ?n v2)" by (simp add: NAME_DATA_def)
    then have "?q \<in> set v2" by (meson in_set_takeD)
    with assms(1) show ?thesis by simp
  next
    case False
    then obtain k where k: "?n - length v2 = Suc k"
      by (cases "?n - length v2") simp_all
    from False have "take ?n (v2 @ ?q # rest) = v2 @ take (?n - length v2) (?q # rest)"
      by simp
    also have "\<dots> = v2 @ ?q # take k rest"
      using k by simp
    finally have "v2 @ ?q # take k rest = ''name = '' @ [?q]"
      using assms(2) name by simp
    then have "takeWhile (\<lambda>c. c \<noteq> ?q) (v2 @ ?q # take k rest)
               = takeWhile (\<lambda>c. c \<noteq> ?q) (''name = '' @ [?q])"
      by (rule arg_cong)
    moreover have "takeWhile (\<lambda>c. c \<noteq> ?q) (v2 @ ?q # take k rest) = v2"
      using assms(1) by (auto simp: takeWhile_tail)
    moreover have "takeWhile (\<lambda>c. c \<noteq> ?q) (''name = '' @ [?q]) = ''name = ''"
      by simp
    ultimately show ?thesis by simp
  qed
qed

lemma name_value_quoted:
  assumes "CHR 0x27 \<notin> set v" and "\<not> (\<exists>u. v = u @ ''name = '')"
  shows "name_value (NAME_DATA @ v @ CHR 0x27 # rest) = v"
proof -
  have skip: "before NAME_DATA (v @ CHR 0x27 # rest) = v @ before NAME_DATA (CHR 0x27 # rest)"
  proof (rule before_skip)
    fix v1 v2
    assume v: "v = v1 @ v2" and "v2 \<noteq> []"
    show "take (length NAME_DATA) (v2 @ CHR 0x27 # rest) \<noteq> NAME_DATA"
    proof
      assume "take (length NAME_DATA) (v2 @ CHR 0x27 # rest) = NAME_DATA"
      moreover have "CHR 0x27 \<notin> set v2" using assms(1) v by simp
      ultimately have "v2 = ''name = ''" by (rule name_prefix_in_value [rotated])
      with v assms(2) show False by blast
    qed
  qed
  have "before NAME_DATA (CHR 0x27 # rest) = CHR 0x27 # before NAME_DATA rest"
    by (simp add: NAME_DATA_def)
  with skip have "before NAME_DATA (v @ CHR 0x27 # rest) = v @ CHR 0x27 # before NAME_DATA rest"
    by simp
  then show ?thesis
    using assms(1) by (simp add: name_value_def before_char)
qed

section \<open>Claims about the classification\<close>

text \<open>
  Claim C1, as amended.  When the network name is loaded and not empty, and
  \<^verbatim>\<open>chainspec.toml\<close> is a file whenever the config directory, the binary and
  \<^verbatim>\<open>config.toml\<close> all exist, \<open>check_staged_version\<close> returns the status of the
  precedence: without config directory \<open>BIN_ONLY\<close> if the binary exists and
  \<open>UNSTAGED\<close> otherwise; else without binary \<open>CONFIG_ONLY\<close>; else without
  \<^verbatim>\<open>config.toml\<close> \<open>NO_CONFIG\<close>; else \<open>WRONG_NETWORK\<close> if the name embedded in the
  chainspec (none, when no line starts with \<^verbatim>\<open>name = '\<close>) differs from the loaded
  network name; else \<open>STAGED\<close>.
\<close>

theorem check_staged_version_precedence:
  assumes "truthy (network_name s)"
    and "path_exists (fs s) (CONFIG_PATH @ [version]) \<and>
         path_exists (fs s) (BIN_PATH @ [version] @ [''casper-node'']) \<and>
         path_exists (fs s) (CONFIG_PATH @ [version] @ [''config.toml''])
         \<longrightarrow> fs s (CONFIG_PATH @ [version] @ [''chainspec.toml'']) = Some (File t)"
  shows "check_staged_version s version =
           Return (classify_by_precedence
             (path_exists (fs s) (CONFIG_PATH @ [version]))
             (path_exists (fs s) (BIN_PATH @ [version] @ [''casper-node'']))
             (path_exists (fs s) (CONFIG_PATH @ [version] @ [''config.toml'']))
             (embedded_name t)
             (network_name s))"
  using assms
  by (auto simp: check_staged_version_def classify_by_precedence_def Let_def chainspec_name_file)

text \<open>
  The theorem at the staged example: all four files are there, the chainspec names the
  network \<^verbatim>\<open>casper\<close>, and the status is \<open>STAGED\<close>.
\<close>

theorem check_staged_version_precedence_witness:
  "truthy (network_name staged_state) \<and>
   fs staged_state (CONFIG_PATH @ [''1_0_0''] @ [''chainspec.toml'']) = Some (File casper_chainspec) \<and>
   embedded_name casper_chainspec = Some ''casper'' \<and>
   check_staged_version staged_state ''1_0_0'' = Return STAGED"
proof -
  have nn: "truthy (network_name staged_state)"
    by (simp add: staged_state_def loaded_def)
  have chainspec: "fs staged_state (CONFIG_PATH @ [''1_0_0''] @ [''chainspec.toml'']) = Some (File casper_chainspec)"
    by (simp add: staged_state_def staged_files_def loaded_def CONFIG_PATH_def)
  have name: "embedded_name casper_chainspec = Some ''casper''"
    by code_simp
  have exist:
    "path_exists (fs staged_state) (CONFIG_PATH @ [''1_0_0''])"
    "path_exists (fs staged_state) (BIN_PATH @ [''1_0_0''] @ [''casper-node''])"
    "path_exists (fs staged_state) (CONFIG_PATH @ [''1_0_0''] @ [''config.toml''])"
    by (simp_all add: staged_state_def staged_files_def loaded_def path_exists_def
        CONFIG_PATH_def BIN_PATH_def base_dirs_def)
  have "check_staged_version staged_state ''1_0_0'' = Return STAGED"
    using check_staged_version_precedence [of staged_state "''1_0_0''" casper_chainspec]
      nn chainspec name exist
    by (simp add: classify_by_precedence_def staged_state_def loaded_def)
  with nn chainspec name show ?thesis by simp
qed

text \<open>
  Claim C1 as stated fails: with network name loaded, config directory, binary and
  \<^verbatim>\<open>config.toml\<close> present and a directory at \<^verbatim>\<open>chainspec.toml\<close>, the call returns no
  status; reading the chainspec raises.
\<close>

theorem check_staged_version_no_status_counterexample:
  "truthy (network_name chainspec_dir_state) \<and>
   check_staged_version chainspec_dir_state ''1_0_0'' = Raise IsADirectoryError"
  by code_simp

text \<open>
  Claim C4 (never fails with an exception): at the example without
  \<^verbatim>\<open>chainspec.toml\<close>, \<open>check_staged_version\<close> raises \<^verbatim>\<open>FileNotFoundError\<close>.
\<close>

theorem check_staged_version_raises:
  "check_staged_version no_chainspec_state ''1_4_5'' = Raise FileNotFoundError"
  by code_simp

section \<open>Claims about the orchestrator\<close>

lemma unstaged_no_config_dir:
  "check_staged_version s pv = Return UNSTAGED \<Longrightarrow> \<not> path_exists (fs s) (CONFIG_PATH @ [pv])"
  by (auto simp: check_staged_version_def Let_def split: if_splits sum.splits)

text \<open>
  Claim C2 (exit code 0 if and only if every version is staged in the end): on the fresh
  installation, with the server that serves everything and a valid \<^verbatim>\<open>--ip\<close>, the run
  stages version 1\_0\_0 completely and still ends with \<^verbatim>\<open>exit(1)\<close>.  And on the
  installation whose chainspec is of another network, the run leaves 1\_0\_0 classified
  \<open>WRONG_NETWORK\<close> and ends with \<^verbatim>\<open>exit(0)\<close>.
\<close>

theorem stage_protocols_exit_1_after_success:
  "fst (stage_protocols good_server ''casper.conf'' (Some ''1.2.3.4'') fresh_state) = Exit 1 \<and>
   check_staged_version
     (snd (stage_protocols good_server ''casper.conf'' (Some ''1.2.3.4'') fresh_state)) ''1_0_0''
     = Return STAGED \<and>
   fst (stage_protocols good_server ''casper.conf'' (Some ''1.2.3.4'') wrong_network_state) = Exit 0 \<and>
   check_staged_version
     (snd (stage_protocols good_server ''casper.conf'' (Some ''1.2.3.4'') wrong_network_state)) ''1_0_0''
     = Return WRONG_NETWORK"
  by code_simp

text \<open>
  Claim C3, as amended.  An exception raised while one version is reconciled is not
  caught: the loop ends at that version with the exception, whatever versions remain.
  So it is when the config archive of an unstaged version is answered with a status
  other than 200: the run ends with the \<^verbatim>\<open>IOError\<close> of \<open>download_file\<close>, and all it
  has done is the one request.
\<close>

theorem stage_loop_error_not_caught:
  "(stage_version e ip platform pv exit_code s = (Raise x, s') \<longrightarrow>
      stage_loop e ip platform (pv # pvs) exit_code s = (Raise x, s')) \<and>
   (check_staged_version s pv = Return UNSTAGED \<and> getuser e = ''casper'' \<and>
    path_exists (fs s) BIN_PATH \<and> path_exists (fs s) CONFIG_PATH \<and>
    \<not> path_exists (fs s) (BIN_PATH @ [pv]) \<and>
    http_get e (requests s) (network_url s @ ''/'' @ pv @ ''/config.tar.gz'') = Response status data \<and>
    status \<noteq> 200 \<longrightarrow>
      stage_loop e ip platform (pv # pvs) exit_code s =
        (Raise (StatusError status),
         s\<lparr>requests := requests s @ [network_url s @ ''/'' @ pv @ ''/config.tar.gz'']\<rparr>))"
proof (intro conjI impI)
  assume "stage_version e ip platform pv exit_code s = (Raise x, s')"
  then show "stage_loop e ip platform (pv # pvs) exit_code s = (Raise x, s')"
    by simp
next
  assume a: "check_staged_version s pv = Return UNSTAGED \<and> getuser e = ''casper'' \<and>
    path_exists (fs s) BIN_PATH \<and> path_exists (fs s) CONFIG_PATH \<and>
    \<not> path_exists (fs s) (BIN_PATH @ [pv]) \<and>
    http_get e (requests s) (network_url s @ ''/'' @ pv @ ''/config.tar.gz'') = Response status data \<and>
    status \<noteq> 200"
  let ?u = "network_url s @ ''/'' @ pv @ ''/config.tar.gz''"
  have no_dir: "\<not> path_exists (fs s) (CONFIG_PATH @ [pv])"
    using a unstaged_no_config_dir by blast
  have dl: "download_file e ?u (CONFIG_PATH @ [''config.tar.gz'']) s =
              (Raise (StatusError status), s\<lparr>requests := requests s @ [?u]\<rparr>)"
    using a by (simp add: download_file_def Let_def)
  have pull: "pull_protocol_version e pv platform s =
              (Raise (StatusError status), s\<lparr>requests := requests s @ [?u]\<rparr>)"
    using a no_dir dl
    by (simp add: pull_protocol_version_def and_then_def verify_casper_user_def Let_def)
  have "stage_version e ip platform pv exit_code s =
          (Raise (StatusError status), s\<lparr>requests := requests s @ [?u]\<rparr>)"
    using a pull by (simp add: stage_version_def and_then_def)
  then show "stage_loop e ip platform (pv # pvs) exit_code s =
        (Raise (StatusError status), s\<lparr>requests := requests s @ [?u]\<rparr>)"
    by simp
qed

text \<open>
  The theorem on the fresh installation with its network config loaded: version 1\_0\_0
  is unstaged, its config archive is answered with 404, and the loop over 1\_0\_0 and
  1\_1\_0 ends with that error after the one request.
\<close>

theorem stage_loop_error_not_caught_witness:
  "stage_loop half_server None ''deb'' [''1_0_0'', ''1_1_0''] 0 (loaded (map_of base_dirs)) =
     (Raise (StatusError 404),
      (loaded (map_of base_dirs))\<lparr>requests := [''http://example.org/casper/1_0_0/config.tar.gz'']\<rparr>)"
proof -
  let ?s = "loaded (map_of base_dirs)"
  have 1: "check_staged_version ?s ''1_0_0'' = Return UNSTAGED"
    by code_simp
  have 2: "getuser half_server = ''casper''"
    by (simp add: half_server_def)
  have 3: "path_exists (fs ?s) BIN_PATH" "path_exists (fs ?s) CONFIG_PATH"
    "\<not> path_exists (fs ?s) (BIN_PATH @ [''1_0_0''])"
    by (simp_all add: loaded_def base_dirs_def path_exists_def BIN_PATH_def CONFIG_PATH_def)
  have 4: "network_url ?s @ ''/'' @ ''1_0_0'' @ ''/config.tar.gz'' =
           ''http://example.org/casper/1_0_0/config.tar.gz''"
    by (simp add: network_url_def loaded_def)
  have 5: "http_get half_server (requests ?s) ''http://example.org/casper/1_0_0/config.tar.gz''
           = Response 404 []"
    by (simp add: half_server_def)
  have 6: "requests ?s = []"
    by (simp add: loaded_def)
  show ?thesis
    using stage_loop_error_not_caught
      [of half_server None "''deb''" "''1_0_0''" 0 ?s _ _ "[''1_1_0'']" 404 "[]"]
      1 2 3 4 5 6
    by simp
qed

text \<open>
  Claim C3 as stated fails: the catalog lists 1\_0\_0 and 1\_1\_0, the config archive of
  1\_0\_0 is answered with 404, and the run ends with that error.  It has asked for the
  catalog and for that archive only; version 1\_1\_0, whose archives the server would
  have served, is still unstaged.
\<close>

theorem stage_protocols_aborts_counterexample:
  "fst (stage_protocols half_server ''casper.conf'' (Some ''1.2.3.4'') fresh_state)
     = Raise (StatusError 404) \<and>
   requests (snd (stage_protocols half_server ''casper.conf'' (Some ''1.2.3.4'') fresh_state))
     = [''http://example.org/casper/protocol_versions'',
        ''http://example.org/casper/1_0_0/config.tar.gz''] \<and>
   check_staged_version
     (snd (stage_protocols half_server ''casper.conf'' (Some ''1.2.3.4'') fresh_state)) ''1_1_0''
     = Return UNSTAGED"
  by code_simp

section \<open>Claims about fetching and extracting\<close>

lemma wf_fs_above:
  "wf_fs f \<Longrightarrow> f (d @ q) \<noteq> None \<Longrightarrow> f d \<noteq> None"
proof (induction q rule: rev_induct)
  case Nil
  then show ?case by simp
next
  case (snoc x q)
  from snoc.prems have "f (butlast (d @ q @ [x])) = Some Dir"
    unfolding wf_fs_def by blast
  then have "f (d @ q) \<noteq> None"
    by (simp add: butlast_append)
  with snoc show ?case by simp
qed

lemma wf_fs_map_of:
  assumes "map_of l [] = Some Dir"
    and "list_all (\<lambda>(p, n). map_of l (butlast p) = Some Dir) l"
  shows "wf_fs (map_of l)"
  unfolding wf_fs_def
proof (intro conjI allI impI)
  show "map_of l [] = Some Dir" by fact
next
  fix p
  assume "map_of l p \<noteq> None"
  then obtain n where "(p, n) \<in> set l"
    by (auto dest: map_of_SomeD)
  with assms(2) show "map_of l (butlast p) = Some Dir"
    by (auto simp: list_all_iff)
qed

lemma pull_aborts:
  "path_exists (fs s) (CONFIG_PATH @ [v]) \<or> path_exists (fs s) (BIN_PATH @ [v]) \<Longrightarrow>
   pull_protocol_version e v platform s = (Exit 1, s)"
  by (auto simp: pull_protocol_version_def and_then_def verify_casper_user_def Let_def)

text \<open>
  Claim C9, as amended.  \<open>pull_protocol_version\<close> ends with \<^verbatim>\<open>exit(1)\<close>, before any
  request and with nothing changed, when the config directory or the binary directory of
  the version exists; hence, in a file system that is a tree, a call leaves everything as
  it is when anything exists at or below one of the two directories.  A version classified
  \<open>UNSTAGED\<close> has no config directory and no binary \<^verbatim>\<open>casper-node\<close>; of its
  binary directory the classification says nothing.
\<close>

theorem pull_never_overwrites:
  "(path_exists (fs s) (CONFIG_PATH @ [v]) \<or> path_exists (fs s) (BIN_PATH @ [v]) \<longrightarrow>
      pull_protocol_version e v platform s = (Exit 1, s)) \<and>
   (wf_fs (fs s) \<and> (fs s (CONFIG_PATH @ [v] @ q) \<noteq> None \<or> fs s (BIN_PATH @ [v] @ q) \<noteq> None) \<longrightarrow>
      pull_protocol_version e v platform s = (Exit 1, s)) \<and>
   (check_staged_version s v = Return UNSTAGED \<longrightarrow>
      \<not> path_exists (fs s) (CONFIG_PATH @ [v]) \<and>
      \<not> path_exists (fs s) (BIN_PATH @ [v] @ [''casper-node'']))"
proof (intro conjI impI)
  assume "path_exists (fs s) (CONFIG_PATH @ [v]) \<or> path_exists (fs s) (BIN_PATH @ [v])"
  then show "pull_protocol_version e v platform s = (Exit 1, s)"
    by (rule pull_aborts)
next
  assume a: "wf_fs (fs s) \<and>
    (fs s (CONFIG_PATH @ [v] @ q) \<noteq> None \<or> fs s (BIN_PATH @ [v] @ q) \<noteq> None)"
  then have "fs s (CONFIG_PATH @ [v]) \<noteq> None \<or> fs s (BIN_PATH @ [v]) \<noteq> None"
    using wf_fs_above [of "fs s" "CONFIG_PATH @ [v]" q] wf_fs_above [of "fs s" "BIN_PATH @ [v]" q]
    by auto
  then show "pull_protocol_version e v platform s = (Exit 1, s)"
    using pull_aborts [of s v e platform] by (simp add: path_exists_def)
next
  assume "check_staged_version s v = Return UNSTAGED"
  then show "\<not> path_exists (fs s) (CONFIG_PATH @ [v])"
    by (auto simp: check_staged_version_def Let_def split: if_splits sum.splits)
next
  assume "check_staged_version s v = Return UNSTAGED"
  then show "\<not> path_exists (fs s) (BIN_PATH @ [v] @ [''casper-node''])"
    by (auto simp: check_staged_version_def Let_def split: if_splits sum.splits)
qed

text \<open>
  The theorem at the staged example, a tree in which \<^verbatim>\<open>chainspec.toml\<close> of 1\_0\_0
  exists: the call changes nothing.  And at the base directories alone 1\_0\_0 is
  unstaged and has no config directory.
\<close>

theorem pull_never_overwrites_witness:
  "wf_fs (fs staged_state) \<and>
   fs staged_state (CONFIG_PATH @ [''1_0_0''] @ [''chainspec.toml'']) \<noteq> None \<and>
   pull_protocol_version good_server ''1_0_0'' ''deb'' staged_state = (Exit 1, staged_state) \<and>
   check_staged_version (loaded (map_of base_dirs)) ''1_0_0'' = Return UNSTAGED \<and>
   \<not> path_exists (fs (loaded (map_of base_dirs))) (CONFIG_PATH @ [''1_0_0''])"
proof -
  have "wf_fs (map_of staged_files)"
    by (rule wf_fs_map_of) (simp_all add: staged_files_def base_dirs_def)
  then have tree: "wf_fs (fs staged_state)"
    by (simp add: staged_state_def loaded_def)
  have there: "fs staged_state (CONFIG_PATH @ [''1_0_0''] @ [''chainspec.toml'']) \<noteq> None"
    by (simp add: staged_state_def staged_files_def loaded_def CONFIG_PATH_def)
  have unstaged: "check_staged_version (loaded (map_of base_dirs)) ''1_0_0'' = Return UNSTAGED"
    by code_simp
  show ?thesis
    using pull_never_overwrites [of staged_state "''1_0_0''" good_server "''deb''" "[''chainspec.toml'']"]
      pull_never_overwrites [of "loaded (map_of base_dirs)" "''1_0_0''" good_server "''deb''" "[]"]
      tree there unstaged
    by simp
qed

text \<open>
  Claim C9 as stated fails in its last part: with an empty directory
  \<^verbatim>\<open>/var/lib/casper/bin/1_0_0\<close> the version is classified \<open>UNSTAGED\<close>, the user
  is \<^verbatim>\<open>casper\<close>, both roots exist, and \<open>pull_protocol_version\<close> takes the branch
  that ends with \<^verbatim>\<open>exit(1)\<close> because the binary directory exists.
\<close>

theorem pull_aborts_when_unstaged_counterexample:
  "check_staged_version empty_bin_dir_state ''1_0_0'' = Return UNSTAGED \<and>
   getuser good_server = ''casper'' \<and>
   path_exists (fs empty_bin_dir_state) BIN_PATH \<and>
   path_exists (fs empty_bin_dir_state) CONFIG_PATH \<and>
   \<not> path_exists (fs empty_bin_dir_state) (CONFIG_PATH @ [''1_0_0'']) \<and>
   path_exists (fs empty_bin_dir_state) (BIN_PATH @ [''1_0_0'']) \<and>
   pull_protocol_version good_server ''1_0_0'' ''deb'' empty_bin_dir_state
     = (Exit 1, empty_bin_dir_state)"
proof -
  have 1: "check_staged_version empty_bin_dir_state ''1_0_0'' = Return UNSTAGED"
    by code_simp
  have 2: "getuser good_server = ''casper''"
    by (simp add: good_server_def)
  have 3: "path_exists (fs empty_bin_dir_state) BIN_PATH"
    "path_exists (fs empty_bin_dir_state) CONFIG_PATH"
    "\<not> path_exists (fs empty_bin_dir_state) (CONFIG_PATH @ [''1_0_0''])"
    "path_exists (fs empty_bin_dir_state) (BIN_PATH @ [''1_0_0''])"
    by (simp_all add: empty_bin_dir_state_def loaded_def base_dirs_def path_exists_def
        BIN_PATH_def CONFIG_PATH_def)
  from 3(4) have "pull_protocol_version good_server ''1_0_0'' ''deb'' empty_bin_dir_state
     = (Exit 1, empty_bin_dir_state)"
    by (simp add: pull_aborts)
  with 1 2 3 show ?thesis by simp
qed






section \<open>Claims about the config file\<close>











section \<open>What extraction changes\<close>




















section \<open>Claims about the external address\<close>

lemma first_seen_snoc:
  "first_seen (xs @ [x]) = (if x \<in> set xs then first_seen xs else first_seen xs @ [x])"
  by (simp add: first_seen_def)

lemma set_first_seen [simp]: "set (first_seen xs) = set xs"
  by (simp add: first_seen_def)

lemma distinct_first_seen [simp]: "distinct (first_seen xs)"
  by (simp add: first_seen_def)

lemma find_append_cases:
  "find P (xs @ ys) = (case find P xs of None \<Rightarrow> find P ys | Some x \<Rightarrow> Some x)"
  by (induction xs) auto

lemma find_first_seen: "find P (first_seen xs) = find P xs"
proof (induction xs rule: rev_induct)
  case Nil
  show ?case by (simp add: first_seen_def)
next
  case (snoc x xs)
  show ?case
  proof (cases "x \<in> set xs")
    case True
    have "find P (xs @ [x]) = find P xs"
    proof (cases "find P xs")
      case None
      then have "\<not> P x" using True by (simp add: find_None_iff)
      with None show ?thesis by (simp add: find_append_cases)
    next
      case (Some y)
      then show ?thesis by (simp add: find_append_cases)
    qed
    with True snoc show ?thesis by (simp add: first_seen_snoc)
  next
    case False
    with snoc show ?thesis by (simp add: first_seen_snoc find_append_cases)
  qed
qed

lemma counter_add_map:
  "distinct ys \<Longrightarrow>
   counter_add x (map (\<lambda>y. (y, h y)) ys) =
     (if x \<in> set ys then map (\<lambda>y. (y, if y = x then Suc (h y) else h y)) ys
      else map (\<lambda>y. (y, h y)) ys @ [(x, 1)])"
  by (induction ys) auto

lemma Counter_snoc: "Counter (xs @ [x]) = counter_add x (Counter xs)"
  by (simp add: Counter_def)

lemma Counter_counts:
  "Counter xs = map (\<lambda>y. (y, count_list xs y)) (first_seen xs)"
proof (induction xs rule: rev_induct)
  case Nil
  show ?case by (simp add: Counter_def first_seen_def)
next
  case (snoc x xs)
  have "Counter (xs @ [x]) = counter_add x (map (\<lambda>y. (y, count_list xs y)) (first_seen xs))"
    using snoc by (simp add: Counter_snoc)
  also have "\<dots> = map (\<lambda>y. (y, count_list (xs @ [x]) y)) (first_seen (xs @ [x]))"
    by (subst counter_add_map) (auto simp: first_seen_snoc)
  finally show ?case .
qed

lemma max_first_find:
  "find (\<lambda>i. \<forall>j\<in>set (b # rest). snd j \<le> snd i) (b # rest) = Some (max_first b rest)"
proof (induction rest arbitrary: b)
  case Nil
  show ?case by simp
next
  case (Cons i rest)
  define b' where "b' = (if snd b < snd i then i else b)"
  define M where "M = (\<lambda>x::string \<times> nat. \<forall>j\<in>set (b # i # rest). snd j \<le> snd x)"
  define M' where "M' = (\<lambda>x::string \<times> nat. \<forall>j\<in>set (b' # rest). snd j \<le> snd x)"
  have same: "M = M'"
    unfolding M_def M'_def b'_def by (rule ext) auto
  have IH: "find M' (b' # rest) = Some (max_first b' rest)"
    unfolding M'_def by (rule Cons.IH)
  have step: "max_first b (i # rest) = max_first b' rest"
    by (simp add: b'_def)
  have "find M (b # i # rest) = find M (b' # rest)"
  proof (cases "snd b < snd i")
    case True
    then have "\<not> M b" unfolding M_def by auto
    with True show ?thesis by (simp add: b'_def)
  next
    case False
    then have b': "b' = b" by (simp add: b'_def)
    show ?thesis
    proof (cases "M b")
      case True
      with b' show ?thesis by simp
    next
      case notb: False
      have "\<not> M i"
      proof
        assume "M i"
        then have "\<forall>j\<in>set (b # i # rest). snd j \<le> snd i" by (simp add: M_def)
        with False have "\<forall>j\<in>set (b # i # rest). snd j \<le> snd b" by auto
        with notb show False by (simp add: M_def)
      qed
      with notb b' show ?thesis by simp
    qed
  qed
  with IH same step have "find M (b # i # rest) = Some (max_first b (i # rest))"
    by simp
  then show ?case unfolding M_def .
qed

lemma find_map_pairs:
  "find (\<lambda>i. Q (snd i)) (map (\<lambda>y. (y, h y)) ys) = map_option (\<lambda>y. (y, h y)) (find (\<lambda>y. Q (h y)) ys)"
  by (induction ys) auto

lemma most_common_1_Counter:
  "most_common_1 (Counter xs) =
     (case most_frequent xs of None \<Rightarrow> [] | Some w \<Rightarrow> [(w, count_list xs w)])"
proof (cases "first_seen xs")
  case Nil
  then have "set xs = {}" using set_first_seen [of xs] by simp
  then show ?thesis
    by (simp add: most_common_1_def Counter_def most_frequent_def)
next
  case (Cons z zs)
  let ?g = "\<lambda>y. (y, count_list xs y)"
  let ?Q = "\<lambda>n. \<forall>y\<in>set xs. count_list xs y \<le> n"
  have c: "Counter xs = ?g z # map ?g zs"
    using Counter_counts [of xs] Cons by simp
  have "set (?g z # map ?g zs) = ?g ` set xs"
    using set_first_seen [of xs] Cons by (metis list.simps(9) set_map)
  then have pred: "(\<forall>j\<in>set (?g z # map ?g zs). snd j \<le> snd i) = ?Q (snd i)" for i
    by simp
  have "Some (max_first (?g z) (map ?g zs))
        = find (\<lambda>i. \<forall>j\<in>set (?g z # map ?g zs). snd j \<le> snd i) (?g z # map ?g zs)"
    by (rule max_first_find [symmetric])
  also have "\<dots> = find (\<lambda>i. ?Q (snd i)) (map ?g (first_seen xs))"
    unfolding pred using Cons by simp
  also have "\<dots> = map_option ?g (find (\<lambda>y. ?Q (count_list xs y)) (first_seen xs))"
    by (rule find_map_pairs)
  also have "\<dots> = map_option ?g (most_frequent xs)"
    by (simp add: find_first_seen most_frequent_def)
  finally have "map_option ?g (most_frequent xs) = Some (max_first (?g z) (map ?g zs))"
    by simp
  then show ?thesis
    using c by (auto simp: most_common_1_def)
qed

lemma most_frequent_Nil_iff: "most_frequent xs = None \<longleftrightarrow> xs = []"
proof
  assume none: "most_frequent xs = None"
  show "xs = []"
  proof (rule ccontr)
    assume "xs \<noteq> []"
    then have "Counter xs \<noteq> []"
      using Counter_counts [of xs] set_first_seen [of xs] by (metis map_is_Nil_conv set_empty)
    then have "most_common_1 (Counter xs) \<noteq> []"
      by (cases "Counter xs") (simp_all add: most_common_1_def)
    with none show False by (simp add: most_common_1_Counter)
  qed
next
  assume "xs = []"
  then show "most_frequent xs = None" by (simp add: most_frequent_def)
qed


lemma query_services_three:
  assumes "http_get e (requests s) ''https://checkip.amazonaws.com'' = r1"
    and "http_get e (requests s @ [''https://checkip.amazonaws.com'']) ''https://ifconfig.me'' = r2"
    and "http_get e (requests s @ [''https://checkip.amazonaws.com'', ''https://ifconfig.me''])
           ''https://ident.me'' = r3"
    and "r1 \<noteq> ConnectionFailed" "r2 \<noteq> ConnectionFailed" "r3 \<noteq> ConnectionFailed"
  shows "query_services e services [] s =
           (Return (filter (\<lambda>a. a \<noteq> []) [kept r1, kept r2, kept r3]),
            s\<lparr>requests := requests s @ [''https://checkip.amazonaws.com'', ''https://ifconfig.me'',
                                         ''https://ident.me'']\<rparr>)"
  using assms
  by (cases r1; cases r2; cases r3) (simp_all add: services_def Let_def)

lemma get_external_ip_most_frequent:
  assumes "\<not> truthy (external_ip s)"
    and "http_get e (requests s) ''https://checkip.amazonaws.com'' = r1"
    and "http_get e (requests s @ [''https://checkip.amazonaws.com'']) ''https://ifconfig.me'' = r2"
    and "http_get e (requests s @ [''https://checkip.amazonaws.com'', ''https://ifconfig.me''])
           ''https://ident.me'' = r3"
    and "r1 \<noteq> ConnectionFailed" "r2 \<noteq> ConnectionFailed" "r3 \<noteq> ConnectionFailed"
  shows "fst (get_external_ip e s) =
           Return (case most_frequent (filter (\<lambda>a. a \<noteq> []) [kept r1, kept r2, kept r3]) of
                     None \<Rightarrow> None
                   | Some a \<Rightarrow> if ip_address_ok e a then Some a else None)"
proof -
  let ?ips = "filter (\<lambda>a. a \<noteq> []) [kept r1, kept r2, kept r3]"
  have q: "query_services e services [] s =
           (Return ?ips,
            s\<lparr>requests := requests s @ [''https://checkip.amazonaws.com'', ''https://ifconfig.me'',
                                         ''https://ident.me'']\<rparr>)"
    using query_services_three [OF assms(2-7)] .
  show ?thesis
  proof (cases "most_frequent ?ips")
    case None
    then have "?ips = []" by (simp only: most_frequent_Nil_iff)
    with q assms(1) None show ?thesis
      by (simp add: get_external_ip_def and_then_def)
  next
    case (Some w)
    then have ne: "?ips \<noteq> []" using most_frequent_Nil_iff [of ?ips] by auto
    have mc: "most_common_1 (Counter ?ips) = [(w, count_list ?ips w)]"
      using Some by (simp only: most_common_1_Counter option.case)
    show ?thesis
      using q assms(1) Some ne mc
      by (simp add: get_external_ip_def and_then_def is_valid_ip_def del: filter.simps)
  qed
qed

lemma most_frequent_max:
  assumes "most_frequent xs = Some w"
  shows "w \<in> set xs \<and> (\<forall>y\<in>set xs. count_list xs y \<le> count_list xs w)"
  using assms unfolding most_frequent_def by (metis (mono_tags, lifting) find_Some_iff nth_mem)

lemma query_services_unreachable:
  "http_get e (requests s) ''https://checkip.amazonaws.com'' = ConnectionFailed \<Longrightarrow>
   fst (query_services e services [] s) = Raise MaxRetryError"
  by (simp add: services_def Let_def)

lemma most_frequent_first:
  assumes "most_frequent xs = Some w"
  shows "\<exists>i<length xs. xs ! i = w \<and> (\<forall>j<i. count_list xs (xs ! j) < count_list xs w)"
proof -
  let ?P = "\<lambda>x. \<forall>y\<in>set xs. count_list xs y \<le> count_list xs x"
  from assms obtain i where i: "i < length xs" "?P (xs ! i)" "w = xs ! i" "\<forall>j<i. \<not> ?P (xs ! j)"
    unfolding most_frequent_def find_Some_iff by blast
  have "count_list xs (xs ! j) < count_list xs w" if "j < i" for j
  proof -
    from i(4) that obtain y where "y \<in> set xs" "\<not> count_list xs y \<le> count_list xs (xs ! j)"
      by blast
    moreover from i(2,3) \<open>y \<in> set xs\<close> have "count_list xs y \<le> count_list xs w" by simp
    ultimately show ?thesis by simp
  qed
  with i show ?thesis by blast
qed

text \<open>
  Claim C5, as amended.  With no address cached and all three services reached,
  \<open>get_external_ip\<close> returns the most frequent of the answers kept (the stripped
  bodies of the responses with status 200 that are not empty), and of several most
  frequent answers the one given first, if \<^verbatim>\<open>ipaddress\<close> accepts it; otherwise it
  returns \<^verbatim>\<open>None\<close>, as it does when no answer is kept.  The answers are counted before
  the one address is checked.  A service that cannot be reached raises an exception.  In
  a 2-1 split the answer given twice wins; of three different answers the first wins.
\<close>

theorem get_external_ip_plurality:
  assumes "\<not> truthy (external_ip s)"
    and "http_get e (requests s) ''https://checkip.amazonaws.com'' = r1"
    and "http_get e (requests s @ [''https://checkip.amazonaws.com'']) ''https://ifconfig.me'' = r2"
    and "http_get e (requests s @ [''https://checkip.amazonaws.com'', ''https://ifconfig.me''])
           ''https://ident.me'' = r3"
    and "ips = filter (\<lambda>a. a \<noteq> []) [kept r1, kept r2, kept r3]"
  shows "(r1 \<noteq> ConnectionFailed \<and> r2 \<noteq> ConnectionFailed \<and> r3 \<noteq> ConnectionFailed \<longrightarrow>
            fst (get_external_ip e s) =
              Return (case most_frequent ips of
                        None \<Rightarrow> None
                      | Some a \<Rightarrow> if ip_address_ok e a then Some a else None)) \<and>
         (r1 = ConnectionFailed \<longrightarrow> fst (get_external_ip e s) = Raise MaxRetryError) \<and>
         (most_frequent ips = None \<longleftrightarrow> ips = []) \<and>
         (\<forall>w. most_frequent ips = Some w \<longrightarrow>
            w \<in> set ips \<and> (\<forall>y\<in>set ips. count_list ips y \<le> count_list ips w)) \<and>
         (\<forall>w. most_frequent ips = Some w \<longrightarrow>
            (\<exists>i<length ips. ips ! i = w \<and>
               (\<forall>j<i. count_list ips (ips ! j) < count_list ips w))) \<and>
         (\<forall>a b. a \<noteq> b \<longrightarrow>
            most_frequent [a, a, b] = Some a \<and> most_frequent [a, b, a] = Some a \<and>
            most_frequent [b, a, a] = Some a) \<and>
         (\<forall>a b c. a \<noteq> b \<and> a \<noteq> c \<and> b \<noteq> c \<longrightarrow> most_frequent [a, b, c] = Some a)"
proof (intro conjI)
  show "r1 \<noteq> ConnectionFailed \<and> r2 \<noteq> ConnectionFailed \<and> r3 \<noteq> ConnectionFailed \<longrightarrow>
            fst (get_external_ip e s) =
              Return (case most_frequent ips of
                        None \<Rightarrow> None
                      | Some a \<Rightarrow> if ip_address_ok e a then Some a else None)"
    using get_external_ip_most_frequent [OF assms(1-4)] assms(5) by blast
next
  show "r1 = ConnectionFailed \<longrightarrow> fst (get_external_ip e s) = Raise MaxRetryError"
  proof
    assume "r1 = ConnectionFailed"
    with assms(2) have "fst (query_services e services [] s) = Raise MaxRetryError"
      by (simp add: query_services_unreachable)
    with assms(1) show "fst (get_external_ip e s) = Raise MaxRetryError"
      by (cases "query_services e services [] s")
         (simp add: get_external_ip_def and_then_def)
  qed
next
  show "most_frequent ips = None \<longleftrightarrow> ips = []"
    by (rule most_frequent_Nil_iff)
next
  show "\<forall>w. most_frequent ips = Some w \<longrightarrow>
            w \<in> set ips \<and> (\<forall>y\<in>set ips. count_list ips y \<le> count_list ips w)"
    using most_frequent_max by blast
next
  show "\<forall>w. most_frequent ips = Some w \<longrightarrow>
            (\<exists>i<length ips. ips ! i = w \<and>
               (\<forall>j<i. count_list ips (ips ! j) < count_list ips w))"
    using most_frequent_first by blast
next
  show "\<forall>a b. a \<noteq> b \<longrightarrow>
            most_frequent [a, a, b] = Some a \<and> most_frequent [a, b, a] = Some a \<and>
            most_frequent [b, a, a] = Some a"
    by (simp add: most_frequent_def)
next
  show "\<forall>a b c. a \<noteq> b \<and> a \<noteq> c \<and> b \<noteq> c \<longrightarrow> most_frequent [a, b, c] = Some a"
    by (simp add: most_frequent_def)
qed

text \<open>
  The theorem at a 2-1 split: one service answers 1.1.1.1, two answer 2.2.2.2, and the
  call returns 2.2.2.2.
\<close>

theorem get_external_ip_plurality_witness:
  "fst (get_external_ip (echo_services ''1.1.1.1'' ''2.2.2.2'' ''2.2.2.2'') (loaded (map_of base_dirs)))
     = Return (Some ''2.2.2.2'')"
proof -
  let ?e = "echo_services ''1.1.1.1'' ''2.2.2.2'' ''2.2.2.2''"
  let ?s = "loaded (map_of base_dirs)"
  have 1: "\<not> truthy (external_ip ?s)"
    by (simp add: loaded_def)
  have 2: "http_get ?e (requests ?s) ''https://checkip.amazonaws.com''
             = Response 200 (''1.1.1.1'' @ [CHR 0x0A])"
    "http_get ?e (requests ?s @ [''https://checkip.amazonaws.com'']) ''https://ifconfig.me''
             = Response 200 ''2.2.2.2''"
    "http_get ?e (requests ?s @ [''https://checkip.amazonaws.com'', ''https://ifconfig.me''])
           ''https://ident.me'' = Response 200 ''2.2.2.2''"
    by (simp_all add: echo_services_def)
  have 3: "filter (\<lambda>a. a \<noteq> [])
             [kept (Response 200 (''1.1.1.1'' @ [CHR 0x0A])), kept (Response 200 ''2.2.2.2''),
              kept (Response 200 ''2.2.2.2'')] = [''1.1.1.1'', ''2.2.2.2'', ''2.2.2.2'']"
    by code_simp
  have 4: "most_frequent [''1.1.1.1'', ''2.2.2.2'', ''2.2.2.2''] = Some ''2.2.2.2''"
    by code_simp
  have 5: "ip_address_ok ?e ''2.2.2.2''"
    by (simp add: echo_services_def)
  show ?thesis
    using get_external_ip_plurality [OF 1 2 3 [symmetric]] 4 5
    by simp
qed

text \<open>
  Claim C5 as stated fails.  When the three services answer 1.1.1.1, 2.2.2.2 and 3.3.3.3,
  no address has a plurality, and the call returns 1.1.1.1.  When two services answer
  \<^verbatim>\<open>unknown\<close> and one answers the valid address 3.3.3.3, the call returns
  \<^verbatim>\<open>None\<close>, not the only answer that is a valid address.
\<close>

theorem get_external_ip_no_plurality_counterexample:
  "fst (get_external_ip (echo_services ''1.1.1.1'' ''2.2.2.2'' ''3.3.3.3'') (loaded (map_of base_dirs)))
     = Return (Some ''1.1.1.1'') \<and>
   fst (get_external_ip (echo_services ''unknown'' ''unknown'' ''3.3.3.3'') (loaded (map_of base_dirs)))
     = Return None"
  by code_simp

section \<open>The address of a run\<close>

























end
